theory Spec2Isabelle
  imports Main "HOL-Library.AList" "HOL-Library.Product_Lexorder" "HOL-Library.Sublist"
begin

section \<open>The table model of tablemodel.cpp\<close>

text \<open>
  \<^verbatim>\<open>TableModel\<close> extends the toolkit class \<^verbatim>\<open>QSqlRelationalTableModel\<close> and keeps its own
  data in \<^verbatim>\<open>TableModelPrivate\<close>. The embedding keeps the two apart: the private members are
  the fields \<open>d_...\<close> of a record, the inherited part is a value \<open>base\<close> of an arbitrary
  type \<open>'s\<close>, and every call into the base class goes through a record of operations on
  \<open>'s\<close> that the functions below take as their first argument. A null pointer
  dereference is a result of its own, \<open>Inl NullDereference\<close>.
\<close>

subsection \<open>Toolkit values\<close>

text \<open>The role constants are the values of the enumeration \<^verbatim>\<open>Qt::ItemDataRole\<close>.\<close>

definition DisplayRole :: int where "DisplayRole = 0"
definition EditRole :: int where "EditRole = 2"
definition CheckStateRole :: int where "CheckStateRole = 10"
definition UserRole :: int where "UserRole = 256"

text \<open>
  A \<^verbatim>\<open>QModelIndex\<close> of this model: row and column. The default-constructed index
  \<^verbatim>\<open>QModelIndex()\<close> has row and column \<open>-1\<close> and no model; \<^verbatim>\<open>createIndex\<close> always
  gives the model itself, so validity is decided by row and column.
\<close>

record QModelIndex =
  row :: int
  column :: int

definition createIndex :: "int \<Rightarrow> int \<Rightarrow> QModelIndex" where
  "createIndex r c = \<lparr>row = r, column = c\<rparr>"

definition invalidIndex :: QModelIndex where
  "invalidIndex = \<lparr>row = - 1, column = - 1\<rparr>"

definition isValid :: "QModelIndex \<Rightarrow> bool" where
  "isValid i \<longleftrightarrow> 0 \<le> row i \<and> 0 \<le> column i"

datatype QVariant = Invalid | QBool bool | QInt int | QString string

definition toLower_char :: "char \<Rightarrow> char" where
  "toLower_char c =
     (case map_of (zip ''ABCDEFGHIJKLMNOPQRSTUVWXYZ'' ''abcdefghijklmnopqrstuvwxyz'') c of
        None \<Rightarrow> c
      | Some l \<Rightarrow> l)"

definition toLower :: "string \<Rightarrow> string" where
  "toLower s = map toLower_char s"

text \<open>\<^verbatim>\<open>QVariant::toBool\<close>, as the toolkit documents it.\<close>

fun toBool :: "QVariant \<Rightarrow> bool" where
  "toBool Invalid = False"
| "toBool (QBool b) = b"
| "toBool (QInt n) = (n \<noteq> 0)"
| "toBool (QString s) = (toLower s \<notin> {'''', ''0'', ''false''})"

record QSqlField =
  fname :: string
  fvalue :: QVariant
  generated :: bool

type_synonym QSqlRecord = "QSqlField list"

text \<open>\<^verbatim>\<open>QSqlRecord::indexOf\<close>: the first field of that name, compared without case.\<close>

fun indexOf :: "QSqlRecord \<Rightarrow> string \<Rightarrow> nat option" where
  "indexOf [] name = None"
| "indexOf (f # fs) name =
     (if toLower (fname f) = toLower name then Some 0
      else map_option Suc (indexOf fs name))"

text \<open>
  \<^verbatim>\<open>QSqlRecord::setValue(name, v)\<close> and \<^verbatim>\<open>QSqlRecord::setGenerated(name, g)\<close> change the
  field \<open>indexOf name\<close> and do nothing when there is none. The fields of a table's record
  are not read-only, so the value is taken.
\<close>

definition setValue :: "QSqlRecord \<Rightarrow> string \<Rightarrow> QVariant \<Rightarrow> QSqlRecord" where
  "setValue rec name v =
     (case indexOf rec name of None \<Rightarrow> rec
      | Some k \<Rightarrow> rec[k := (rec ! k)\<lparr>fvalue := v\<rparr>])"

definition setGenerated :: "QSqlRecord \<Rightarrow> string \<Rightarrow> bool \<Rightarrow> QSqlRecord" where
  "setGenerated rec name g =
     (case indexOf rec name of None \<Rightarrow> rec
      | Some k \<Rightarrow> rec[k := (rec ! k)\<lparr>generated := g\<rparr>])"

subsection \<open>The selection model\<close>

text \<open>
  Modelled from the spec: \<^verbatim>\<open>QItemSelectionModel\<close> is a class of the toolkit, not of this
  repository. The spec's SelectionSet is a set of indices that the component changes only by
  adding and removing one index and reads through its size and membership; it is a list
  without order here, and \<open>selectedIndexes\<close> gives each selected index once.
\<close>

type_synonym QItemSelectionModel = "QModelIndex list"

datatype SelectionFlag = Select | Deselect

fun select_index :: "QItemSelectionModel \<Rightarrow> QModelIndex \<Rightarrow> SelectionFlag \<Rightarrow> QItemSelectionModel"
  where
  "select_index sel i Select = List.insert i sel"
| "select_index sel i Deselect = removeAll i sel"

definition isSelected :: "QItemSelectionModel \<Rightarrow> QModelIndex \<Rightarrow> bool" where
  "isSelected sel i \<longleftrightarrow> i \<in> set sel"

definition selectedIndexes :: "QItemSelectionModel \<Rightarrow> QModelIndex list" where
  "selectedIndexes sel = remdups sel"

subsection \<open>The base class and the state of a TableModel\<close>

text \<open>
  The calls that tablemodel.cpp makes into \<^verbatim>\<open>QSqlRelationalTableModel\<close> and its database,
  as operations on the inherited state \<open>'s\<close>. Nothing is assumed about them: a theorem
  that holds for every value of this record holds for every behaviour of the store.
\<close>

record 's QSqlRelationalTableModel =
  base_record :: "'s \<Rightarrow> QSqlRecord"
  base_setData :: "'s \<Rightarrow> QModelIndex \<Rightarrow> QVariant \<Rightarrow> int \<Rightarrow> bool \<times> 's"
  base_data :: "'s \<Rightarrow> QModelIndex \<Rightarrow> int \<Rightarrow> QVariant"
  base_tableName :: "'s \<Rightarrow> string"
  base_select :: "'s \<Rightarrow> bool \<times> 's"
  base_insertRecord :: "'s \<Rightarrow> int \<Rightarrow> QSqlRecord \<Rightarrow> bool \<times> 's"
  base_removeRow :: "'s \<Rightarrow> int \<Rightarrow> bool \<times> 's"
  base_rowCount :: "'s \<Rightarrow> int"
  base_columnCount :: "'s \<Rightarrow> int"
  lastError_text :: "'s \<Rightarrow> string"
  database_tables :: "'s \<Rightarrow> string list"
  database_databaseName :: "'s \<Rightarrow> string"

datatype Signal =
    SelectedRowsChanged
  | DataChanged QModelIndex QModelIndex "int list"
  | Error string
  | TableChanged
  | DatabaseNameChanged

datatype Fault = NullDereference

record 's TableModel =
  d_databaseName :: string
  d_tableName :: string
  d_errorString :: string
  d_selectionModel :: "QItemSelectionModel option"
  d_roles :: "(int \<times> string) list"
  base :: 's
  emitted :: "Signal list"

text \<open>
  The members as \<^verbatim>\<open>TableModelPrivate\<close> initialises them: empty strings, an empty hash
  and \<^verbatim>\<open>selectionModel = nullptr\<close>.
\<close>

definition TableModel_new :: "'s \<Rightarrow> 's TableModel" where
  "TableModel_new s =
     \<lparr>d_databaseName = [], d_tableName = [], d_errorString = [],
      d_selectionModel = None, d_roles = [], base = s, emitted = []\<rparr>"

definition emit :: "Signal \<Rightarrow> 's TableModel \<Rightarrow> 's TableModel" where
  "emit sig m = m\<lparr>emitted := emitted m @ [sig]\<rparr>"

subsection \<open>roleNames\<close>

text \<open>
  \<^verbatim>\<open>QHash<int, QByteArray>\<close> is an association list with one entry for each key;
  \<^verbatim>\<open>QHash::insert\<close> is \<^const>\<open>AList.update\<close>. \<^verbatim>\<open>QHash::key(value)\<close> gives a key that
  holds the value and the default key \<open>0\<close> when there is none; which one of several it
  gives is not fixed by the toolkit, and it is the first of the list here. The loop index of
  \<^verbatim>\<open>roleNames\<close> is an \<^verbatim>\<open>int\<close> below the number of fields of the record, which is far
  from \<open>2^31 - 257\<close>, so \<^verbatim>\<open>Qt::UserRole + 1 + i\<close> does not overflow and the keys are
  integers without bound here.
\<close>

definition hash_key :: "(int \<times> string) list \<Rightarrow> string \<Rightarrow> int" where
  "hash_key h v = (case find (\<lambda>kv. snd kv = v) h of None \<Rightarrow> 0 | Some kv \<Rightarrow> fst kv)"

definition roleNames_of :: "QSqlRecord \<Rightarrow> (int \<times> string) list" where
  "roleNames_of rec =
     fold (\<lambda>i roles. AList.update (UserRole + 1 + int i) (fname (rec ! i)) roles)
       [0 ..< length rec]
       (AList.update CheckStateRole ''checkState'' [])"

definition roleNames ::
  "'s QSqlRelationalTableModel \<Rightarrow> 's TableModel \<Rightarrow> (int \<times> string) list \<times> 's TableModel" where
  "roleNames S m =
     (let roles = roleNames_of (base_record S (base m))
      in (roles, m\<lparr>d_roles := roles\<rparr>))"

subsection \<open>selectedRows\<close>

definition selectedRows :: "'s TableModel \<Rightarrow> int" where
  "selectedRows m =
     (case d_selectionModel m of
        None \<Rightarrow> 0
      | Some sel \<Rightarrow> int (length (selectedIndexes sel)))"

subsection \<open>setData and data\<close>

definition setData ::
  "'s QSqlRelationalTableModel \<Rightarrow> 's TableModel \<Rightarrow> QModelIndex \<Rightarrow> QVariant \<Rightarrow> int
     \<Rightarrow> Fault + bool \<times> 's TableModel" where
  "setData S m index v role =
     (if \<not> isValid index then Inr (False, m)
      else if role < UserRole then
        (if role = CheckStateRole then
           (case d_selectionModel m of
              None \<Rightarrow> Inl NullDereference
            | Some sel \<Rightarrow>
                let flag = (if toBool v then Select else Deselect);
                    m1 = m\<lparr>d_selectionModel := Some (select_index sel index flag)\<rparr>;
                    m2 = emit SelectedRowsChanged m1;
                    m3 = emit (DataChanged index index [role]) m2
                in Inr (True, m3))
         else
           (let (ok, s) = base_setData S (base m) index v role
            in Inr (ok, m\<lparr>base := s\<rparr>)))
      else
        (let col = role - UserRole - 1;
             modelIndex = createIndex (row index) col;
             (ok, s) = base_setData S (base m) modelIndex v EditRole
         in Inr (ok, m\<lparr>base := s\<rparr>)))"

definition data ::
  "'s QSqlRelationalTableModel \<Rightarrow> 's TableModel \<Rightarrow> QModelIndex \<Rightarrow> int \<Rightarrow> Fault + QVariant"
  where
  "data S m index role =
     (if \<not> isValid index then Inr Invalid
      else if role < UserRole then
        (if role = CheckStateRole then
           (case d_selectionModel m of
              None \<Rightarrow> Inl NullDereference
            | Some sel \<Rightarrow> Inr (QBool (isSelected sel index)))
         else Inr (base_data S (base m) index role))
      else
        (let col = role - UserRole - 1;
             modelIndex = createIndex (row index) col
         in Inr (base_data S (base m) modelIndex DisplayRole)))"

text \<open>
  Modelled from the spec: the translation of a row index into a model index is the
  toolkit's \<^verbatim>\<open>QAbstractTableModel::index\<close>, which the source does not contain. The spec's
  Get and Set take a row index and name an out-of-range one invalid: a cell inside the table
  gets \<open>createIndex\<close>, any other the invalid index.
\<close>

definition index ::
  "'s QSqlRelationalTableModel \<Rightarrow> 's TableModel \<Rightarrow> int \<Rightarrow> int \<Rightarrow> QModelIndex" where
  "index S m r c =
     (if 0 \<le> r \<and> 0 \<le> c \<and> r < base_rowCount S (base m) \<and> c < base_columnCount S (base m)
      then createIndex r c else invalidIndex)"

subsection \<open>Names, errors and reloading\<close>

definition databaseName :: "'s TableModel \<Rightarrow> string" where
  "databaseName m = d_databaseName m"

definition tableName :: "'s QSqlRelationalTableModel \<Rightarrow> 's TableModel \<Rightarrow> string" where
  "tableName S m = base_tableName S (base m)"

definition errorString :: "'s QSqlRelationalTableModel \<Rightarrow> 's TableModel \<Rightarrow> string" where
  "errorString S m =
     (if d_errorString m = [] then lastError_text S (base m) else d_errorString m)"

definition refresh ::
  "'s QSqlRelationalTableModel \<Rightarrow> 's TableModel \<Rightarrow> bool \<times> 's TableModel" where
  "refresh S m =
     (if tableName S m \<notin> set (database_tables S (base m)) then
        (let msg = ''Can not open table '' @ [CHR 0x27] @ tableName S m @ [CHR 0x27]
                     @ '' in '' @ [CHR 0x27] @ database_databaseName S (base m) @ [CHR 0x27];
             m1 = m\<lparr>d_errorString := msg\<rparr>
         in (False, emit (Error msg) m1))
      else
        (let (ok, s) = base_select S (base m);
             m1 = m\<lparr>base := s\<rparr>
         in if \<not> ok then
              (let msg = ''Read record error '' @ lastError_text S s;
                   m2 = m1\<lparr>d_errorString := msg\<rparr>
               in (ok, emit (Error msg) m2))
            else (ok, m1)))"

definition select :: "'s QSqlRelationalTableModel \<Rightarrow> 's TableModel \<Rightarrow> bool \<times> 's TableModel"
  where
  "select S m = refresh S m"

subsection \<open>Inserting and removing rows\<close>

text \<open>
  The record that \<^verbatim>\<open>insert\<close> hands to the store. \<open>pending\<close> is the value of the
  enumerator \<^verbatim>\<open>TableModel::PendingStatus\<close>, which the header declares.
\<close>

definition insert_record :: "int \<Rightarrow> QSqlRecord \<Rightarrow> QSqlRecord" where
  "insert_record pending rec0 =
     (let rec1 = map (\<lambda>f. f\<lparr>generated := False\<rparr>) rec0;
          rec2 = setValue rec1 ''state'' (QInt pending);
          rec3 = setGenerated rec2 ''state'' True
      in rec3)"

definition insert_row ::
  "'s QSqlRelationalTableModel \<Rightarrow> int \<Rightarrow> 's TableModel \<Rightarrow> int \<Rightarrow> int \<times> 's TableModel" where
  "insert_row S pending m r =
     (let rec = insert_record pending (base_record S (base m));
          (ok, s) = base_insertRecord S (base m) r rec;
          m1 = m\<lparr>base := s\<rparr>
      in if \<not> ok then
           (let e1 = d_errorString m1 @ [];
                e2 = e1 @ (''Insert record failed'' @ lastError_text S s);
                e3 = e2 @ (databaseName m1 @ tableName S m1);
                m2 = m1\<lparr>d_errorString := e3\<rparr>
            in (- 1, emit (Error e3) m2))
         else (r, m1))"

definition add :: "'s QSqlRelationalTableModel \<Rightarrow> int \<Rightarrow> 's TableModel \<Rightarrow> int \<times> 's TableModel"
  where
  "add S pending m = insert_row S pending m (base_rowCount S (base m))"

definition remove_row ::
  "'s QSqlRelationalTableModel \<Rightarrow> 's TableModel \<Rightarrow> int \<Rightarrow> bool \<times> 's TableModel" where
  "remove_row S m r = (let (ok, s) = base_removeRow S (base m) r in (ok, m\<lparr>base := s\<rparr>))"

text \<open>
  \<^verbatim>\<open>operator<\<close> of \<^verbatim>\<open>QModelIndex\<close> compares the row, then the column; the indexes of a
  selection differ in one of them, so \<^verbatim>\<open>std::sort\<close> has one result.
\<close>

definition index_key :: "QModelIndex \<Rightarrow> int \<times> int" where
  "index_key i = (row i, column i)"

function removeSelected_loop ::
  "'s QSqlRelationalTableModel \<Rightarrow> QModelIndex list \<Rightarrow> int \<Rightarrow> 's \<Rightarrow> QItemSelectionModel
     \<Rightarrow> int \<times> 's \<times> QItemSelectionModel" where
  "removeSelected_loop S list tot s sel =
     (if list = [] then (tot, s, sel)
      else
        (let lst = last list;
             list' = butlast list;
             currentRow = row lst;
             (ok, s') = base_removeRow S s currentRow
         in if ok then removeSelected_loop S list' (tot + 1) s' (select_index sel lst Deselect)
            else removeSelected_loop S list' tot s' sel))"
  by pat_completeness auto
termination
  by (relation "measure (\<lambda>(S, list, tot, s, sel). length list)") auto

declare removeSelected_loop.simps [simp del]

definition removeSelected ::
  "'s QSqlRelationalTableModel \<Rightarrow> 's TableModel \<Rightarrow> Fault + int \<times> 's TableModel" where
  "removeSelected S m =
     (case d_selectionModel m of
        None \<Rightarrow> Inl NullDereference
      | Some sel \<Rightarrow>
          let list = sort_key index_key (selectedIndexes sel);
              (tot, s, sel') = removeSelected_loop S list 0 (base m) sel
          in Inr (tot, m\<lparr>base := s, d_selectionModel := Some sel'\<rparr>))"

definition recoverRow ::
  "'s QSqlRelationalTableModel \<Rightarrow> 's TableModel \<Rightarrow> int \<Rightarrow> Fault + bool \<times> 's TableModel" where
  "recoverRow S m r =
     (let modelIndex = createIndex r 0;
          role = hash_key (d_roles m) ''deleted_at''
      in setData S m modelIndex Invalid role)"

subsection \<open>Binding a table and a database\<close>

text \<open>
  \<^verbatim>\<open>QString::trimmed\<close> removes the white space at both ends, and
  \<^verbatim>\<open>compare(..., Qt::CaseInsensitive)\<close> is 0 for names that are equal without case (the
  letters of ASCII here).
\<close>

definition isSpace :: "char \<Rightarrow> bool" where
  "isSpace c \<longleftrightarrow> c \<in> set [CHR 0x09, CHR 0x0A, CHR 0x0B, CHR 0x0C, CHR 0x0D, CHR 0x20]"

definition trimmed :: "string \<Rightarrow> string" where
  "trimmed s = rev (dropWhile isSpace (rev (dropWhile isSpace s)))"

definition setDatabaseName :: "'s TableModel \<Rightarrow> string \<Rightarrow> 's TableModel" where
  "setDatabaseName m fileName =
     (if toLower fileName = toLower (d_databaseName m) then m
      else emit DatabaseNameChanged (m\<lparr>d_databaseName := fileName\<rparr>))"

text \<open>
  \<open>base_setTable\<close> is \<^verbatim>\<open>QSqlRelationalTableModel::setTable\<close>, any function on the inherited
  state.
\<close>

definition setTable ::
  "('s \<Rightarrow> string \<Rightarrow> 's) \<Rightarrow> 's QSqlRelationalTableModel \<Rightarrow> 's TableModel \<Rightarrow> string
     \<Rightarrow> 's TableModel" where
  "setTable base_setTable S m name =
     (let table = trimmed name
      in if table = [] \<or> toLower table = toLower (tableName S m) then m
         else
           (let m1 = m\<lparr>d_tableName := table\<rparr>;
                m2 = (if d_databaseName m1 \<noteq> []
                      then m1\<lparr>base := base_setTable (base m1) table\<rparr> else m1)
            in emit TableChanged m2))"

subsection \<open>Notions of the specification\<close>

text \<open>
  The removals of \<^verbatim>\<open>removeSelected\<close> as the spec words them: the rows are tried one
  after the other in the given order, each on the store the one before left; the result is
  the outcome of each try and the last store.
\<close>

fun attempts :: "'s QSqlRelationalTableModel \<Rightarrow> 's \<Rightarrow> int list \<Rightarrow> bool list \<times> 's" where
  "attempts S s [] = ([], s)"
| "attempts S s (r # rs) =
     (let (ok, s') = base_removeRow S s r;
          (oks, s'') = attempts S s' rs
      in (ok # oks, s''))"

text \<open>
  The order in which the spec has the selection processed: sorted ascending and taken from
  the tail, so descending.
\<close>

definition removal_order :: "QItemSelectionModel \<Rightarrow> QModelIndex list" where
  "removal_order sel = rev (sort_key index_key (selectedIndexes sel))"

text \<open>The indexes of \<open>idxs\<close> whose try, at the same position of \<open>oks\<close>, succeeded.\<close>

definition removed_indexes :: "QModelIndex list \<Rightarrow> bool list \<Rightarrow> QModelIndex list" where
  "removed_indexes idxs oks = map fst (filter snd (zip idxs oks))"

text \<open>
  The message recorded last: every place of the source that assigns \<^verbatim>\<open>d->errorString\<close>
  emits \<^verbatim>\<open>error\<close> with the same text, so it is the text of the last \<open>Error\<close> signal.
\<close>

fun recorded_error :: "Signal list \<Rightarrow> string option" where
  "recorded_error [] = None"
| "recorded_error (Error msg # sigs) =
     (case recorded_error sigs of None \<Rightarrow> Some msg | Some e \<Rightarrow> Some e)"
| "recorded_error (sig # sigs) = recorded_error sigs"

text \<open>
  The states a model reaches from one in which nothing has been recorded, by the operations
  above in any order and with any arguments. The source assigns \<^verbatim>\<open>d->errorString\<close> and
  emits \<^verbatim>\<open>error\<close> in \<^verbatim>\<open>refresh\<close> and \<^verbatim>\<open>insert\<close> only; the rule \<open>after_other\<close> stands
  for every other step (\<^verbatim>\<open>setTable\<close>, \<^verbatim>\<open>setDatabaseName\<close>, \<^verbatim>\<open>recoverSelected\<close>, a change of
  the selection), which leaves both as they are.
\<close>

inductive reachable :: "'s QSqlRelationalTableModel \<Rightarrow> int \<Rightarrow> 's TableModel \<Rightarrow> bool"
  for S :: "'s QSqlRelationalTableModel" and pending :: int where
  fresh: "d_errorString m = [] \<Longrightarrow> recorded_error (emitted m) = None \<Longrightarrow> reachable S pending m"
| after_roleNames: "reachable S pending m \<Longrightarrow> reachable S pending (snd (roleNames S m))"
| after_setData:
    "reachable S pending m \<Longrightarrow> setData S m i v role = Inr (ok, m') \<Longrightarrow> reachable S pending m'"
| after_refresh: "reachable S pending m \<Longrightarrow> reachable S pending (snd (refresh S m))"
| after_insert: "reachable S pending m \<Longrightarrow> reachable S pending (snd (insert_row S pending m r))"
| after_remove: "reachable S pending m \<Longrightarrow> reachable S pending (snd (remove_row S m r))"
| after_removeSelected:
    "reachable S pending m \<Longrightarrow> removeSelected S m = Inr (n, m') \<Longrightarrow> reachable S pending m'"
| after_recoverRow:
    "reachable S pending m \<Longrightarrow> recoverRow S m r = Inr (ok, m') \<Longrightarrow> reachable S pending m'"
| after_other:
    "reachable S pending m \<Longrightarrow> d_errorString m' = d_errorString m \<Longrightarrow>
       recorded_error (emitted m') = recorded_error (emitted m) \<Longrightarrow> reachable S pending m'"

subsection \<open>A store held in memory\<close>

text \<open>
  Modelled from the spec: the store behind the Store interface of the spec (tableExists,
  reload, lastErrorText, insertRowWithDefaults, removeRow, getDisplayValue, setEditValue) is
  the toolkit's table model and the database, which the source does not contain. This one
  holds the table as a list of rows: removing a row moves the rows after it one index down
  and fails outside the table, a write is accepted for the edit role inside the table, a row
  is inserted at an index up to the row count, and a reload succeeds when \<open>ls_readable\<close>
  says so. The examples below are evaluated on it.
\<close>

record ListStore =
  ls_table :: string
  ls_database :: string
  ls_catalog :: "string list"
  ls_columns :: "string list"
  ls_rows :: "QVariant list list"
  ls_error :: string
  ls_readable :: bool

definition ls_inside :: "ListStore \<Rightarrow> QModelIndex \<Rightarrow> bool" where
  "ls_inside s i \<longleftrightarrow>
     0 \<le> row i \<and> row i < int (length (ls_rows s)) \<and>
     0 \<le> column i \<and> column i < int (length (ls_columns s))"

definition ls_setData :: "ListStore \<Rightarrow> QModelIndex \<Rightarrow> QVariant \<Rightarrow> int \<Rightarrow> bool \<times> ListStore" where
  "ls_setData s i v role =
     (if role = EditRole \<and> ls_inside s i then
        (True, s\<lparr>ls_rows := (ls_rows s)[nat (row i) :=
                    (ls_rows s ! nat (row i))[nat (column i) := v]]\<rparr>)
      else (False, s))"

definition ls_data :: "ListStore \<Rightarrow> QModelIndex \<Rightarrow> int \<Rightarrow> QVariant" where
  "ls_data s i role =
     (if (role = DisplayRole \<or> role = EditRole) \<and> ls_inside s i \<and>
         nat (column i) < length (ls_rows s ! nat (row i))
      then ls_rows s ! nat (row i) ! nat (column i) else Invalid)"

definition ls_select :: "ListStore \<Rightarrow> bool \<times> ListStore" where
  "ls_select s =
     (if ls_readable s then (True, s) else (False, s\<lparr>ls_error := ''unable to fetch rows''\<rparr>))"

definition ls_insertRecord :: "ListStore \<Rightarrow> int \<Rightarrow> QSqlRecord \<Rightarrow> bool \<times> ListStore" where
  "ls_insertRecord s r rec =
     (if int (length (ls_rows s)) < r then (False, s\<lparr>ls_error := ''no such row''\<rparr>)
      else
        (let new = map (\<lambda>f. if generated f then fvalue f else Invalid) rec;
             k = (if r < 0 then length (ls_rows s) else nat r)
         in (True, s\<lparr>ls_rows := take k (ls_rows s) @ [new] @ drop k (ls_rows s)\<rparr>)))"

definition ls_removeRow :: "ListStore \<Rightarrow> int \<Rightarrow> bool \<times> ListStore" where
  "ls_removeRow s r =
     (if 0 \<le> r \<and> r < int (length (ls_rows s)) then
        (True, s\<lparr>ls_rows := take (nat r) (ls_rows s) @ drop (Suc (nat r)) (ls_rows s)\<rparr>)
      else (False, s))"

definition listStore :: "ListStore QSqlRelationalTableModel" where
  "listStore =
     \<lparr>base_record = (\<lambda>s. map (\<lambda>n. \<lparr>fname = n, fvalue = Invalid, generated = True\<rparr>) (ls_columns s)),
      base_setData = ls_setData,
      base_data = ls_data,
      base_tableName = ls_table,
      base_select = ls_select,
      base_insertRecord = ls_insertRecord,
      base_removeRow = ls_removeRow,
      base_rowCount = (\<lambda>s. int (length (ls_rows s))),
      base_columnCount = (\<lambda>s. int (length (ls_columns s))),
      lastError_text = ls_error,
      database_tables = ls_catalog,
      database_databaseName = ls_database\<rparr>"

text \<open>
  The table \<^verbatim>\<open>books\<close> of the database \<^verbatim>\<open>:memory:\<close>, the defaults of
  \<^verbatim>\<open>componentComplete\<close>, with the rows given.
\<close>

definition books :: "QVariant list list \<Rightarrow> ListStore" where
  "books rows =
     \<lparr>ls_table = ''books'', ls_database = '':memory:'', ls_catalog = [''books''],
      ls_columns = [''id'', ''state'', ''deleted_at''], ls_rows = rows,
      ls_error = [], ls_readable = True\<rparr>"

definition book :: "int \<Rightarrow> QVariant list" where
  "book n = [QInt n, QInt 0, Invalid]"

text \<open>
  A second table of that database, \<^verbatim>\<open>archive\<close>, with a column \<^verbatim>\<open>title\<close> before
  \<^verbatim>\<open>deleted_at\<close>, as the base class holds it after \<^verbatim>\<open>setTable\<close> and a reload.
\<close>

definition archive :: "QVariant list list \<Rightarrow> ListStore" where
  "archive rows =
     \<lparr>ls_table = ''archive'', ls_database = '':memory:'', ls_catalog = [''books'', ''archive''],
      ls_columns = [''id'', ''state'', ''title'', ''deleted_at''], ls_rows = rows,
      ls_error = [], ls_readable = True\<rparr>"

text \<open>
  A model bound to that table and database, as \<^verbatim>\<open>componentComplete\<close> binds it, with the
  selection model given.
\<close>

definition TableModel_books ::
  "QVariant list list \<Rightarrow> QItemSelectionModel option \<Rightarrow> ListStore TableModel" where
  "TableModel_books rows sel =
     (TableModel_new (books rows))
       \<lparr>d_databaseName := '':memory:'', d_tableName := ''books'', d_selectionModel := sel\<rparr>"

section \<open>Properties\<close>

subsection \<open>Evaluating the store held in memory\<close>

lemma books_record:
  "base_record listStore (base (TableModel_new (books rows))) =
     [\<lparr>fname = ''id'', fvalue = Invalid, generated = True\<rparr>,
      \<lparr>fname = ''state'', fvalue = Invalid, generated = True\<rparr>,
      \<lparr>fname = ''deleted_at'', fvalue = Invalid, generated = True\<rparr>]"
  by (simp add: listStore_def books_def TableModel_new_def)

lemmas books_eval = listStore_def books_def book_def TableModel_books_def TableModel_new_def

subsection \<open>Role names\<close>

lemma update_fresh: "k \<notin> fst ` set al \<Longrightarrow> AList.update k v al = al @ [(k, v)]"
  by (induction al) auto

lemma roleNames_fold:
  "fold (\<lambda>i roles. AList.update (UserRole + 1 + int i) (f i) roles) [0 ..< n]
       [(CheckStateRole, c)]
   = (CheckStateRole, c) # map (\<lambda>i. (UserRole + 1 + int i, f i)) [0 ..< n]"
proof (induction n)
  case 0
  show ?case by simp
next
  case (Suc n)
  have fresh: "UserRole + 1 + int n \<notin>
      fst ` set ((CheckStateRole, c) # map (\<lambda>i. (UserRole + 1 + int i, f i)) [0 ..< n])"
    by (auto simp: UserRole_def CheckStateRole_def)
  show ?case
    using Suc update_fresh [OF fresh] by simp
qed

lemma roleNames_of_eq:
  "roleNames_of rec =
     (CheckStateRole, ''checkState'') #
       map (\<lambda>i. (UserRole + 1 + int i, fname (rec ! i))) [0 ..< length rec]"
  unfolding roleNames_of_def
  using roleNames_fold [of "\<lambda>i. fname (rec ! i)" "length rec" "''checkState''"]
  by simp

lemma roleNames_of_keys:
  "map fst (roleNames_of rec) =
     CheckStateRole # map (\<lambda>i. UserRole + 1 + int i) [0 ..< length rec]"
  by (simp add: roleNames_of_eq comp_def)

lemma roleNames_of_distinct: "distinct (map fst (roleNames_of rec))"
proof -
  have "inj_on (\<lambda>i. UserRole + 1 + int i) (set [0 ..< length rec])"
    by (rule inj_onI) simp
  then have "distinct (map (\<lambda>i. UserRole + 1 + int i) [0 ..< length rec])"
    by (simp add: distinct_map)
  moreover have "CheckStateRole \<notin> set (map (\<lambda>i. UserRole + 1 + int i) [0 ..< length rec])"
    by (auto simp: UserRole_def CheckStateRole_def)
  ultimately show ?thesis
    unfolding roleNames_of_keys by simp
qed

lemma roleNames_of_column:
  assumes "i < length rec"
  shows "map_of (roleNames_of rec) (UserRole + 1 + int i) = Some (fname (rec ! i))"
proof -
  have "(UserRole + 1 + int i, fname (rec ! i)) \<in> set (roleNames_of rec)"
    using assms by (auto simp: roleNames_of_eq)
  then show ?thesis
    using roleNames_of_distinct by (simp add: map_of_eq_Some_iff)
qed

text \<open>
  C2, as the code has it: for a table of \<open>N\<close> columns \<^verbatim>\<open>roleNames()\<close> returns
  \<open>N + 1\<close> entries with distinct keys; the key \<^verbatim>\<open>Qt::CheckStateRole\<close> (10) holds
  \<^verbatim>\<open>checkState\<close> and the key \<^verbatim>\<open>Qt::UserRole + 1 + i\<close> (257 + i) holds the name of column
  \<open>i\<close>, in the order of the record. The result is computed from the record the base class
  holds now, whatever the cache \<^verbatim>\<open>d->roles\<close> held, and replaces that cache.
\<close>

theorem roleNames_entries:
  "length (fst (roleNames S m)) = length (base_record S (base m)) + 1 \<and>
   distinct (map fst (fst (roleNames S m))) \<and>
   map_of (fst (roleNames S m)) CheckStateRole = Some ''checkState'' \<and>
   (\<forall>i < length (base_record S (base m)).
      map_of (fst (roleNames S m)) (UserRole + 1 + int i)
        = Some (fname (base_record S (base m) ! i))) \<and>
   fst (roleNames S m) = roleNames_of (base_record S (base m)) \<and>
   snd (roleNames S m) = m\<lparr>d_roles := roleNames_of (base_record S (base m))\<rparr>"
proof -
  let ?rec = "base_record S (base m)"
  have eq: "fst (roleNames S m) = roleNames_of ?rec"
    and m': "snd (roleNames S m) = m\<lparr>d_roles := roleNames_of ?rec\<rparr>"
    by (simp_all add: roleNames_def Let_def)
  have "length (roleNames_of ?rec) = length ?rec + 1"
    by (simp add: roleNames_of_eq)
  moreover have "map_of (roleNames_of ?rec) CheckStateRole = Some ''checkState''"
    by (simp add: roleNames_of_eq)
  moreover have "\<forall>i < length ?rec.
      map_of (roleNames_of ?rec) (UserRole + 1 + int i) = Some (fname (?rec ! i))"
    by (simp add: roleNames_of_column)
  ultimately show ?thesis
    unfolding eq m' using roleNames_of_distinct [of ?rec] by blast
qed

text \<open>
  C2 on the table \<^verbatim>\<open>books\<close> with its three columns: four entries, and the third column
  \<^verbatim>\<open>deleted_at\<close> under the key 259.
\<close>

theorem roleNames_entries_witness:
  "length (fst (roleNames listStore (TableModel_new (books [])))) = 4 \<and>
   map_of (fst (roleNames listStore (TableModel_new (books [])))) 259 = Some ''deleted_at''"
proof -
  note t = roleNames_entries [of listStore "TableModel_new (books [])"]
  have len: "length (fst (roleNames listStore (TableModel_new (books [])))) = 4"
    using t [THEN conjunct1] by (simp add: books_record)
  have "\<forall>i<3. map_of (fst (roleNames listStore (TableModel_new (books []))))
      (UserRole + 1 + int i)
        = Some (fname (base_record listStore (base (TableModel_new (books []))) ! i))"
    using t [THEN conjunct2, THEN conjunct2, THEN conjunct2, THEN conjunct1]
    by (simp add: books_record)
  from this [rule_format, of 2]
  have "map_of (fst (roleNames listStore (TableModel_new (books [])))) 259 = Some ''deleted_at''"
    by (simp add: books_record UserRole_def)
  with len show ?thesis by simp
qed

text \<open>
  C2 with the roles numbered from 0 does not hold: on the table \<^verbatim>\<open>books\<close> neither the
  role 0 nor the role 1 is an entry of \<^verbatim>\<open>roleNames()\<close>; the checked field is under 10 and
  column 0 under 257.
\<close>

theorem roleNames_zero_based_counterexample:
  "map_of (fst (roleNames listStore (TableModel_new (books [])))) 0 = None \<and>
   map_of (fst (roleNames listStore (TableModel_new (books [])))) 1 = None \<and>
   map_of (fst (roleNames listStore (TableModel_new (books [])))) 10 = Some ''checkState'' \<and>
   map_of (fst (roleNames listStore (TableModel_new (books [])))) 257 = Some ''id''"
  by (simp add: Let_def roleNames_def roleNames_of_def books_record
        UserRole_def CheckStateRole_def upt_rec)

subsection \<open>The number of selected rows\<close>

text \<open>
  C9: \<^verbatim>\<open>selectedRows()\<close> has a value in every state, an integer and never a fault: 0 when
  no selection model is attached (the pointer is null), and the number of selected indexes
  otherwise.
\<close>

theorem selectedRows_total:
  "(d_selectionModel m = None \<longrightarrow> selectedRows m = 0) \<and>
   (\<forall>sel. d_selectionModel m = Some sel \<longrightarrow> selectedRows m = int (card (set sel)))"
  by (simp add: selectedRows_def selectedIndexes_def length_remdups_card_conv)

text \<open>C9 on a model without a selection model, and on one with two selected indexes.\<close>

theorem selectedRows_total_witness:
  "selectedRows (TableModel_books [] None) = 0 \<and>
   selectedRows (TableModel_books [] (Some [createIndex 2 0, createIndex 5 0])) = 2"
proof -
  have a: "selectedRows (TableModel_books [] None) = 0"
    using selectedRows_total [of "TableModel_books [] None"]
    by (simp add: books_eval)
  have "selectedRows (TableModel_books [] (Some [createIndex 2 0, createIndex 5 0]))
      = int (card (set [createIndex 2 0, createIndex 5 0]))"
    using selectedRows_total [of "TableModel_books [] (Some [createIndex 2 0, createIndex 5 0])"]
    by (simp add: books_eval)
  then show ?thesis
    using a by (simp add: createIndex_def)
qed

subsection \<open>Invalid indexes\<close>

lemma index_out_of_range:
  "r < 0 \<or> base_rowCount S (base m) \<le> r \<Longrightarrow> \<not> isValid (index S m r c)"
  by (auto simp: index_def isValid_def invalidIndex_def)

text \<open>
  C7: for an index that is not valid, and so for the index of every row below 0 or at or
  beyond the row count, \<^verbatim>\<open>data\<close> returns the null value and \<^verbatim>\<open>setData\<close> returns false
  and leaves the whole model as it was, the selection and the store included; neither is a
  fault.
\<close>

theorem invalid_index_ignored:
  "(\<not> isValid i \<longrightarrow>
      data S m i role = Inr Invalid \<and> setData S m i v role = Inr (False, m)) \<and>
   (r < 0 \<or> base_rowCount S (base m) \<le> r \<longrightarrow>
      data S m (index S m r c) role = Inr Invalid \<and>
      setData S m (index S m r c) v role = Inr (False, m))"
  using index_out_of_range [of r S m c]
  by (simp add: data_def setData_def)

text \<open>C7 on a table of two rows: the index of row -1 at the checked role, row 7 at a column role.\<close>

theorem invalid_index_ignored_witness:
  "\<not> isValid (createIndex (- 1) 0) \<and>
   data listStore (TableModel_books [book 1, book 2] (Some [])) (createIndex (- 1) 0) CheckStateRole
     = Inr Invalid \<and>
   setData listStore (TableModel_books [book 1, book 2] (Some [])) (createIndex (- 1) 0)
     (QBool True) CheckStateRole
     = Inr (False, TableModel_books [book 1, book 2] (Some [])) \<and>
   base_rowCount listStore (base (TableModel_books [book 1, book 2] (Some []))) \<le> 7 \<and>
   data listStore (TableModel_books [book 1, book 2] (Some []))
     (index listStore (TableModel_books [book 1, book 2] (Some [])) 7 0) (UserRole + 1)
     = Inr Invalid \<and>
   setData listStore (TableModel_books [book 1, book 2] (Some []))
     (index listStore (TableModel_books [book 1, book 2] (Some [])) 7 0) (QInt 9) (UserRole + 1)
     = Inr (False, TableModel_books [book 1, book 2] (Some []))"
proof -
  have a: "\<not> isValid (createIndex (- 1) 0)"
    by (simp add: isValid_def createIndex_def)
  have b: "base_rowCount listStore (base (TableModel_books [book 1, book 2] (Some []))) \<le> 7"
    by (simp add: books_eval)
  show ?thesis
    using a b
      invalid_index_ignored [of "createIndex (- 1) 0" listStore
        "TableModel_books [book 1, book 2] (Some [])" CheckStateRole "QBool True" 0 0]
      invalid_index_ignored [of "createIndex 0 0" listStore
        "TableModel_books [book 1, book 2] (Some [])" "UserRole + 1" "QInt 9" 7 0]
    by simp
qed

subsection \<open>Reloading\<close>

text \<open>
  C5: \<^verbatim>\<open>select()\<close> looks for the bound table in the catalog first. When it is missing the
  result is false, the store is not reloaded, the message naming table and database is the
  error string and is emitted with \<^verbatim>\<open>error\<close>. Otherwise the store is reloaded; when that
  fails the result is false and the message with the store's diagnostic is the error string
  and is emitted. When it succeeds the result is true, nothing is emitted and the recorded
  error string stays as it was.
\<close>

theorem select_outcomes:
  "(tableName S m \<notin> set (database_tables S (base m)) \<longrightarrow>
      select S m =
        (False, m\<lparr>d_errorString := ''Can not open table '' @ [CHR 0x27] @ tableName S m
                     @ [CHR 0x27] @ '' in '' @ [CHR 0x27] @ database_databaseName S (base m)
                     @ [CHR 0x27],
                   emitted := emitted m @ [Error (''Can not open table '' @ [CHR 0x27]
                     @ tableName S m @ [CHR 0x27] @ '' in '' @ [CHR 0x27]
                     @ database_databaseName S (base m) @ [CHR 0x27])]\<rparr>) \<and>
      errorString S (snd (select S m)) =
        ''Can not open table '' @ [CHR 0x27] @ tableName S m @ [CHR 0x27] @ '' in ''
          @ [CHR 0x27] @ database_databaseName S (base m) @ [CHR 0x27]) \<and>
   (\<forall>s. tableName S m \<in> set (database_tables S (base m)) \<and>
        base_select S (base m) = (False, s) \<longrightarrow>
      select S m =
        (False, m\<lparr>d_errorString := ''Read record error '' @ lastError_text S s,
                   base := s,
                   emitted := emitted m @ [Error (''Read record error '' @ lastError_text S s)]\<rparr>) \<and>
      errorString S (snd (select S m)) = ''Read record error '' @ lastError_text S s) \<and>
   (\<forall>s. tableName S m \<in> set (database_tables S (base m)) \<and>
        base_select S (base m) = (True, s) \<longrightarrow>
      select S m = (True, m\<lparr>base := s\<rparr>) \<and>
      d_errorString (snd (select S m)) = d_errorString m \<and>
      emitted (snd (select S m)) = emitted m)"
  by (simp add: select_def refresh_def emit_def errorString_def Let_def)

text \<open>
  C5 on three models: the table dropped from the catalog, a store that cannot be read, and
  a successful reload after an earlier error.
\<close>

theorem select_outcomes_witness:
  "select listStore ((TableModel_books [] None)\<lparr>base := (books [])\<lparr>ls_catalog := []\<rparr>\<rparr>)
     = (False, (TableModel_books [] None)
          \<lparr>d_errorString := ''Can not open table '' @ [CHR 0x27] @ ''books'' @ [CHR 0x27]
              @ '' in '' @ [CHR 0x27] @ '':memory:'' @ [CHR 0x27],
           base := (books [])\<lparr>ls_catalog := []\<rparr>,
           emitted := [Error (''Can not open table '' @ [CHR 0x27] @ ''books'' @ [CHR 0x27]
              @ '' in '' @ [CHR 0x27] @ '':memory:'' @ [CHR 0x27])]\<rparr>) \<and>
   select listStore ((TableModel_books [] None)\<lparr>base := (books [])\<lparr>ls_readable := False\<rparr>\<rparr>)
     = (False, (TableModel_books [] None)
          \<lparr>d_errorString := ''Read record error unable to fetch rows'',
           base := (books [])\<lparr>ls_readable := False, ls_error := ''unable to fetch rows''\<rparr>,
           emitted := [Error ''Read record error unable to fetch rows'']\<rparr>) \<and>
   select listStore ((TableModel_books [] None)\<lparr>d_errorString := ''earlier''\<rparr>)
     = (True, (TableModel_books [] None)\<lparr>d_errorString := ''earlier''\<rparr>) \<and>
   errorString listStore
     (snd (select listStore ((TableModel_books [] None)\<lparr>d_errorString := ''earlier''\<rparr>)))
     = ''earlier''"
proof -
  let ?m1 = "(TableModel_books [] None)\<lparr>base := (books [])\<lparr>ls_catalog := []\<rparr>\<rparr>"
  let ?m2 = "(TableModel_books [] None)\<lparr>base := (books [])\<lparr>ls_readable := False\<rparr>\<rparr>"
  let ?m3 = "(TableModel_books [] None)\<lparr>d_errorString := ''earlier''\<rparr>"
  have h1: "tableName listStore ?m1 \<notin> set (database_tables listStore (base ?m1))"
    by (simp add: tableName_def books_eval)
  have h2: "tableName listStore ?m2 \<in> set (database_tables listStore (base ?m2)) \<and>
      base_select listStore (base ?m2)
        = (False, (books [])\<lparr>ls_readable := False, ls_error := ''unable to fetch rows''\<rparr>)"
    by (simp add: tableName_def books_eval ls_select_def)
  have h3: "tableName listStore ?m3 \<in> set (database_tables listStore (base ?m3)) \<and>
      base_select listStore (base ?m3) = (True, books [])"
    by (simp add: tableName_def books_eval ls_select_def)
  note t1 = select_outcomes [of listStore ?m1, THEN conjunct1, rule_format, OF h1]
  note t2 = select_outcomes [of listStore ?m2, THEN conjunct2, THEN conjunct1, rule_format, OF h2]
  note t3 = select_outcomes [of listStore ?m3, THEN conjunct2, THEN conjunct2, rule_format, OF h3]
  have c1: "select listStore ?m1
     = (False, (TableModel_books [] None)
          \<lparr>d_errorString := ''Can not open table '' @ [CHR 0x27] @ ''books'' @ [CHR 0x27]
              @ '' in '' @ [CHR 0x27] @ '':memory:'' @ [CHR 0x27],
           base := (books [])\<lparr>ls_catalog := []\<rparr>,
           emitted := [Error (''Can not open table '' @ [CHR 0x27] @ ''books'' @ [CHR 0x27]
              @ '' in '' @ [CHR 0x27] @ '':memory:'' @ [CHR 0x27])]\<rparr>)"
    using t1 [THEN conjunct1] by (simp add: tableName_def books_eval)
  have c2: "select listStore ?m2
     = (False, (TableModel_books [] None)
          \<lparr>d_errorString := ''Read record error unable to fetch rows'',
           base := (books [])\<lparr>ls_readable := False, ls_error := ''unable to fetch rows''\<rparr>,
           emitted := [Error ''Read record error unable to fetch rows'']\<rparr>)"
    using t2 [THEN conjunct1] by (simp add: books_eval)
  have c3: "select listStore ?m3 = (True, ?m3)"
    using t3 [THEN conjunct1] by (simp add: books_eval)
  have c4: "errorString listStore (snd (select listStore ?m3)) = ''earlier''"
    using t3 [THEN conjunct2, THEN conjunct1] by (simp add: errorString_def)
  from c1 c2 c3 c4 show ?thesis by simp
qed

subsection \<open>The error string\<close>

lemma recorded_error_append:
  "recorded_error (sigs @ sigs2) =
     (case recorded_error sigs2 of None \<Rightarrow> recorded_error sigs | Some e \<Rightarrow> Some e)"
  by (induction sigs rule: recorded_error.induct) (simp_all split: option.splits)

lemma removeSelected_keeps_error:
  "removeSelected S m = Inr (n, m') \<Longrightarrow>
     d_errorString m' = d_errorString m \<and> emitted m' = emitted m"
  by (auto simp: removeSelected_def Let_def split: option.splits prod.splits)

lemma setData_keeps_error:
  "setData S m i v role = Inr (ok, m') \<Longrightarrow>
     d_errorString m' = d_errorString m \<and> recorded_error (emitted m') = recorded_error (emitted m)"
  by (auto simp: setData_def emit_def Let_def recorded_error_append
      split: if_splits option.splits prod.splits)

lemma refresh_records:
  "recorded_error (emitted m) = None \<and> d_errorString m = [] \<or>
   (\<exists>msg. recorded_error (emitted m) = Some msg \<and> msg \<noteq> [] \<and> d_errorString m = msg) \<Longrightarrow>
   recorded_error (emitted (snd (refresh S m))) = None \<and> d_errorString (snd (refresh S m)) = [] \<or>
   (\<exists>msg. recorded_error (emitted (snd (refresh S m))) = Some msg \<and> msg \<noteq> [] \<and>
      d_errorString (snd (refresh S m)) = msg)"
  by (auto simp: refresh_def emit_def Let_def recorded_error_append split: prod.splits)

lemma insert_records:
  "recorded_error (emitted m) = None \<and> d_errorString m = [] \<or>
   (\<exists>msg. recorded_error (emitted m) = Some msg \<and> msg \<noteq> [] \<and> d_errorString m = msg) \<Longrightarrow>
   recorded_error (emitted (snd (insert_row S pending m r))) = None \<and>
     d_errorString (snd (insert_row S pending m r)) = [] \<or>
   (\<exists>msg. recorded_error (emitted (snd (insert_row S pending m r))) = Some msg \<and> msg \<noteq> [] \<and>
      d_errorString (snd (insert_row S pending m r)) = msg)"
  by (auto simp: insert_row_def emit_def Let_def recorded_error_append split: prod.splits)

lemma reachable_recorded:
  "reachable S pending m \<Longrightarrow>
     recorded_error (emitted m) = None \<and> d_errorString m = [] \<or>
     (\<exists>msg. recorded_error (emitted m) = Some msg \<and> msg \<noteq> [] \<and> d_errorString m = msg)"
proof (induction rule: reachable.induct)
  case (fresh m)
  then show ?case by simp
next
  case (after_roleNames m)
  then show ?case by (simp add: roleNames_def Let_def)
next
  case (after_setData m i v role ok m')
  then show ?case using setData_keeps_error [of S m i v role ok m'] by simp
next
  case (after_refresh m)
  from after_refresh.IH show ?case by (rule refresh_records)
next
  case (after_insert m r)
  from after_insert.IH show ?case by (rule insert_records)
next
  case (after_remove m r)
  then show ?case by (simp add: remove_row_def Let_def split: prod.splits)
next
  case (after_removeSelected m n m')
  then show ?case using removeSelected_keeps_error [of S m n m'] by simp
next
  case (after_recoverRow m r ok m')
  then show ?case
    using setData_keeps_error [of S m "createIndex r 0" Invalid _ ok m']
    by (simp add: recoverRow_def Let_def)
next
  case (after_other m m')
  then show ?case by simp
qed

text \<open>
  C8: in every state the model reaches from one where nothing was recorded,
  \<^verbatim>\<open>errorString()\<close> returns the message recorded last, and the last-error text of the
  store when none was recorded.
\<close>

theorem errorString_recorded:
  "reachable S pending m \<Longrightarrow>
     errorString S m =
       (case recorded_error (emitted m) of
          None \<Rightarrow> lastError_text S (base m)
        | Some msg \<Rightarrow> msg)"
  using reachable_recorded [of S pending m]
  by (auto simp: errorString_def)

text \<open>
  C8 on a model whose table was dropped from the catalog: before \<^verbatim>\<open>select()\<close> nothing is
  recorded and the store's text is returned, after it the message of \<^verbatim>\<open>select()\<close>.
\<close>

theorem errorString_recorded_witness:
  "reachable listStore 1
     ((TableModel_books [] None)\<lparr>base := (books [])\<lparr>ls_catalog := [], ls_error := ''no table''\<rparr>\<rparr>) \<and>
   errorString listStore
     ((TableModel_books [] None)\<lparr>base := (books [])\<lparr>ls_catalog := [], ls_error := ''no table''\<rparr>\<rparr>)
     = ''no table'' \<and>
   reachable listStore 1
     (snd (select listStore
        ((TableModel_books [] None)\<lparr>base := (books [])\<lparr>ls_catalog := [], ls_error := ''no table''\<rparr>\<rparr>))) \<and>
   errorString listStore
     (snd (select listStore
        ((TableModel_books [] None)\<lparr>base := (books [])\<lparr>ls_catalog := [], ls_error := ''no table''\<rparr>\<rparr>)))
     = ''Can not open table '' @ [CHR 0x27] @ ''books'' @ [CHR 0x27]
         @ '' in '' @ [CHR 0x27] @ '':memory:'' @ [CHR 0x27]"
proof -
  let ?m = "(TableModel_books [] None)\<lparr>base := (books [])\<lparr>ls_catalog := [], ls_error := ''no table''\<rparr>\<rparr>"
  have r0: "reachable listStore 1 ?m"
    by (rule reachable.fresh) (simp_all add: books_eval)
  have r1: "reachable listStore 1 (snd (select listStore ?m))"
    unfolding select_def using r0 by (rule reachable.after_refresh)
  have e0: "errorString listStore ?m = ''no table''"
    using errorString_recorded [OF r0] by (simp add: books_eval)
  have e1: "errorString listStore (snd (select listStore ?m))
      = ''Can not open table '' @ [CHR 0x27] @ ''books'' @ [CHR 0x27]
         @ '' in '' @ [CHR 0x27] @ '':memory:'' @ [CHR 0x27]"
    using errorString_recorded [OF r1]
    by (simp add: select_def refresh_def tableName_def emit_def Let_def books_eval)
  from r0 r1 e0 e1 show ?thesis by simp
qed

subsection \<open>Inserting a row\<close>

lemma indexOf_bound: "indexOf rec name = Some k \<Longrightarrow> k < length rec"
  by (induction rec arbitrary: k) (auto split: if_splits)

lemma indexOf_names:
  "map fname r1 = map fname r2 \<Longrightarrow> indexOf r1 name = indexOf r2 name"
proof (induction r1 arbitrary: r2)
  case Nil
  then show ?case by simp
next
  case (Cons f fs)
  then obtain g gs where r2: "r2 = g # gs" by (cases r2) auto
  with Cons.prems have "fname f = fname g" and "map fname fs = map fname gs" by simp_all
  with Cons.IH [of gs] r2 show ?case by simp
qed

lemma fname_list_update:
  "k < length rec \<Longrightarrow> fname g = fname (rec ! k) \<Longrightarrow> map fname (rec[k := g]) = map fname rec"
  by (simp add: map_update list_update_same_conv)

lemma setValue_names: "map fname (setValue rec name v) = map fname rec"
  by (auto simp: setValue_def fname_list_update dest: indexOf_bound split: option.splits)

lemma setGenerated_names: "map fname (setGenerated rec name g) = map fname rec"
  by (auto simp: setGenerated_def fname_list_update dest: indexOf_bound split: option.splits)

lemma insert_record_names: "map fname (insert_record pending rec0) = map fname rec0"
  by (simp add: insert_record_def Let_def setValue_names setGenerated_names comp_def)

lemma insert_record_state:
  assumes "indexOf rec0 ''state'' = Some k"
  shows "insert_record pending rec0 =
           (map (\<lambda>f. f\<lparr>generated := False\<rparr>) rec0)
             [k := (rec0 ! k)\<lparr>fvalue := QInt pending, generated := True\<rparr>]"
proof -
  let ?rec1 = "map (\<lambda>f. f\<lparr>generated := False\<rparr>) rec0"
  have k: "k < length rec0" using assms by (rule indexOf_bound)
  have i1: "indexOf ?rec1 ''state'' = Some k"
    using indexOf_names [of ?rec1 rec0 "''state''"] assms by (simp add: comp_def)
  then have v: "setValue ?rec1 ''state'' (QInt pending)
      = ?rec1[k := (?rec1 ! k)\<lparr>fvalue := QInt pending\<rparr>]"
    by (simp add: setValue_def)
  have "indexOf (setValue ?rec1 ''state'' (QInt pending)) ''state'' = Some k"
    using indexOf_names [OF setValue_names, of ?rec1 "''state''" "QInt pending" "''state''"] i1
    by simp
  then show ?thesis
    using k by (simp add: insert_record_def Let_def setGenerated_def v)
qed

lemma insert_record_no_state:
  assumes "indexOf rec0 ''state'' = None"
  shows "insert_record pending rec0 = map (\<lambda>f. f\<lparr>generated := False\<rparr>) rec0"
proof -
  let ?rec1 = "map (\<lambda>f. f\<lparr>generated := False\<rparr>) rec0"
  have "indexOf ?rec1 ''state'' = None"
    using indexOf_names [of ?rec1 rec0 "''state''"] assms by (simp add: comp_def)
  then show ?thesis
    by (simp add: insert_record_def Let_def setGenerated_def setValue_def)
qed

text \<open>
  C6: the record that \<^verbatim>\<open>insert(row)\<close> hands to the store has the fields of the table's
  record; when one of them is the state field, that field holds \<^verbatim>\<open>PendingStatus\<close> and is
  the only one marked as generated (its value is used), every other field is marked as not
  generated (the store's default is used) and keeps its value. When the store accepts the
  record the result is \<open>row\<close>; when it rejects it the result is \<open>-1\<close>, and the error
  string, extended by the text \<^verbatim>\<open>Insert record failed\<close>, the store's diagnostic, the
  database name and the table name, is emitted with \<^verbatim>\<open>error\<close>.
\<close>

theorem insert_blank_row:
  "map fname (insert_record pending (base_record S (base m))) = map fname (base_record S (base m)) \<and>
   (\<forall>k. indexOf (base_record S (base m)) ''state'' = Some k \<longrightarrow>
      fvalue (insert_record pending (base_record S (base m)) ! k) = QInt pending \<and>
      (\<forall>i < length (base_record S (base m)).
         generated (insert_record pending (base_record S (base m)) ! i) = (i = k) \<and>
         (i \<noteq> k \<longrightarrow> fvalue (insert_record pending (base_record S (base m)) ! i)
                    = fvalue (base_record S (base m) ! i)))) \<and>
   (\<forall>s. base_insertRecord S (base m) r (insert_record pending (base_record S (base m))) = (True, s)
      \<longrightarrow> insert_row S pending m r = (r, m\<lparr>base := s\<rparr>)) \<and>
   (\<forall>s. base_insertRecord S (base m) r (insert_record pending (base_record S (base m))) = (False, s)
      \<longrightarrow> insert_row S pending m r =
            (- 1, m\<lparr>d_errorString := d_errorString m @ ''Insert record failed''
                       @ lastError_text S s @ d_databaseName m @ base_tableName S s,
                     base := s,
                     emitted := emitted m @ [Error (d_errorString m @ ''Insert record failed''
                       @ lastError_text S s @ d_databaseName m @ base_tableName S s)]\<rparr>))"
proof -
  let ?rec0 = "base_record S (base m)"
  have fields: "\<forall>k. indexOf ?rec0 ''state'' = Some k \<longrightarrow>
      fvalue (insert_record pending ?rec0 ! k) = QInt pending \<and>
      (\<forall>i < length ?rec0.
         generated (insert_record pending ?rec0 ! i) = (i = k) \<and>
         (i \<noteq> k \<longrightarrow> fvalue (insert_record pending ?rec0 ! i) = fvalue (?rec0 ! i)))"
  proof (intro allI impI)
    fix k
    assume st: "indexOf ?rec0 ''state'' = Some k"
    then have k: "k < length ?rec0" by (rule indexOf_bound)
    show "fvalue (insert_record pending ?rec0 ! k) = QInt pending \<and>
      (\<forall>i < length ?rec0.
         generated (insert_record pending ?rec0 ! i) = (i = k) \<and>
         (i \<noteq> k \<longrightarrow> fvalue (insert_record pending ?rec0 ! i) = fvalue (?rec0 ! i)))"
      using k by (simp add: insert_record_state [OF st] nth_list_update)
  qed
  have ok: "\<forall>s. base_insertRecord S (base m) r (insert_record pending ?rec0) = (True, s)
      \<longrightarrow> insert_row S pending m r = (r, m\<lparr>base := s\<rparr>)"
    by (simp add: insert_row_def Let_def)
  have rejected: "\<forall>s. base_insertRecord S (base m) r (insert_record pending ?rec0) = (False, s)
      \<longrightarrow> insert_row S pending m r =
            (- 1, m\<lparr>d_errorString := d_errorString m @ ''Insert record failed''
                       @ lastError_text S s @ d_databaseName m @ base_tableName S s,
                     base := s,
                     emitted := emitted m @ [Error (d_errorString m @ ''Insert record failed''
                       @ lastError_text S s @ d_databaseName m @ base_tableName S s)]\<rparr>)"
    by (simp add: insert_row_def Let_def emit_def databaseName_def tableName_def)
  from insert_record_names [of pending ?rec0] fields ok rejected show ?thesis
    by blast
qed

text \<open>
  C6 on the empty table \<^verbatim>\<open>books\<close> with \<^verbatim>\<open>PendingStatus\<close> 1: the state field is column 1;
  an insert at row 0 is accepted and an insert at row 5 is rejected.
\<close>

theorem insert_blank_row_witness:
  "indexOf (base_record listStore (base (TableModel_books [] None))) ''state'' = Some 1 \<and>
   fvalue (insert_record 1 (base_record listStore (base (TableModel_books [] None))) ! 1) = QInt 1 \<and>
   generated (insert_record 1 (base_record listStore (base (TableModel_books [] None))) ! 1) \<and>
   \<not> generated (insert_record 1 (base_record listStore (base (TableModel_books [] None))) ! 0) \<and>
   \<not> generated (insert_record 1 (base_record listStore (base (TableModel_books [] None))) ! 2) \<and>
   insert_row listStore 1 (TableModel_books [] None) 0
     = (0, (TableModel_books [] None)\<lparr>base := books [[Invalid, QInt 1, Invalid]]\<rparr>) \<and>
   insert_row listStore 1 (TableModel_books [] None) 5
     = (- 1, (TableModel_books [] None)
          \<lparr>d_errorString := ''Insert record failedno such row:memory:books'',
           base := (books [])\<lparr>ls_error := ''no such row''\<rparr>,
           emitted := [Error ''Insert record failedno such row:memory:books'']\<rparr>)"
proof -
  let ?m = "TableModel_books [] None"
  let ?rec0 = "base_record listStore (base ?m)"
  have rec0: "?rec0 =
     [\<lparr>fname = ''id'', fvalue = Invalid, generated = True\<rparr>,
      \<lparr>fname = ''state'', fvalue = Invalid, generated = True\<rparr>,
      \<lparr>fname = ''deleted_at'', fvalue = Invalid, generated = True\<rparr>]"
    by (simp add: books_eval)
  have st: "indexOf ?rec0 ''state'' = Some 1"
    unfolding rec0 by (simp add: toLower_def toLower_char_def)
  have rec: "insert_record 1 ?rec0 =
     [\<lparr>fname = ''id'', fvalue = Invalid, generated = False\<rparr>,
      \<lparr>fname = ''state'', fvalue = QInt 1, generated = True\<rparr>,
      \<lparr>fname = ''deleted_at'', fvalue = Invalid, generated = False\<rparr>]"
    unfolding rec0 insert_record_state [OF st [unfolded rec0]] by simp
  have acc: "base_insertRecord listStore (base ?m) 0 (insert_record 1 ?rec0)
      = (True, books [[Invalid, QInt 1, Invalid]])"
    unfolding rec by (simp add: books_eval ls_insertRecord_def)
  have rej: "base_insertRecord listStore (base ?m) 5 (insert_record 1 ?rec0)
      = (False, (books [])\<lparr>ls_error := ''no such row''\<rparr>)"
    unfolding rec by (simp add: books_eval ls_insertRecord_def)
  note t = insert_blank_row [of 1 listStore ?m]
  note f = t [THEN conjunct2, THEN conjunct1, rule_format, OF st]
  have g1: "generated (insert_record 1 ?rec0 ! 1)"
    using f [THEN conjunct2, rule_format, of 1] by (simp add: rec0)
  have g0: "\<not> generated (insert_record 1 ?rec0 ! 0)"
    using f [THEN conjunct2, rule_format, of 0] by (simp add: rec0)
  have g2: "\<not> generated (insert_record 1 ?rec0 ! 2)"
    using f [THEN conjunct2, rule_format, of 2] by (simp add: rec0)
  have a: "insert_row listStore 1 ?m 0 = (0, ?m\<lparr>base := books [[Invalid, QInt 1, Invalid]]\<rparr>)"
    using insert_blank_row [of 1 listStore ?m 0,
        THEN conjunct2, THEN conjunct2, THEN conjunct1, rule_format, OF acc] .
  have b: "insert_row listStore 1 ?m 5
     = (- 1, ?m\<lparr>d_errorString := ''Insert record failedno such row:memory:books'',
           base := (books [])\<lparr>ls_error := ''no such row''\<rparr>,
           emitted := [Error ''Insert record failedno such row:memory:books'']\<rparr>)"
    using insert_blank_row [of 1 listStore ?m 5,
        THEN conjunct2, THEN conjunct2, THEN conjunct2, rule_format, OF rej]
    by (simp add: books_eval)
  from st f [THEN conjunct1] g1 g0 g2 a b show ?thesis by simp
qed

text \<open>
  C10: after an insert that the store rejects, the error string recorded before is a
  prefix of the text \<^verbatim>\<open>errorString()\<close> returns, which is longer by the new message: the
  messages of rejected inserts pile up.
\<close>

theorem insert_failure_appends:
  "base_insertRecord S (base m) r (insert_record pending (base_record S (base m))) = (False, s) \<Longrightarrow>
     prefix (d_errorString m) (errorString S (snd (insert_row S pending m r))) \<and>
     errorString S (snd (insert_row S pending m r)) =
       d_errorString m @ ''Insert record failed'' @ lastError_text S s
         @ d_databaseName m @ base_tableName S s \<and>
     length (d_errorString m) < length (errorString S (snd (insert_row S pending m r)))"
  by (simp add: insert_row_def Let_def emit_def databaseName_def tableName_def errorString_def)

text \<open>
  C10 on a model that holds the message of one rejected insert: a second rejected insert
  returns that message followed by the new one.
\<close>

theorem insert_failure_appends_witness:
  "base_insertRecord listStore
      (base ((TableModel_books [] None)
         \<lparr>d_errorString := ''Insert record failedno such row:memory:books''\<rparr>)) 5
      (insert_record 1 (base_record listStore (base ((TableModel_books [] None)
         \<lparr>d_errorString := ''Insert record failedno such row:memory:books''\<rparr>))))
     = (False, (books [])\<lparr>ls_error := ''no such row''\<rparr>) \<and>
   prefix ''Insert record failedno such row:memory:books''
     (errorString listStore (snd (insert_row listStore 1
        ((TableModel_books [] None)
           \<lparr>d_errorString := ''Insert record failedno such row:memory:books''\<rparr>) 5))) \<and>
   errorString listStore (snd (insert_row listStore 1
        ((TableModel_books [] None)
           \<lparr>d_errorString := ''Insert record failedno such row:memory:books''\<rparr>) 5))
     = ''Insert record failedno such row:memory:booksInsert record failedno such row:memory:books''"
proof -
  let ?m = "(TableModel_books [] None)
     \<lparr>d_errorString := ''Insert record failedno such row:memory:books''\<rparr>"
  have rej: "base_insertRecord listStore (base ?m) 5
      (insert_record 1 (base_record listStore (base ?m)))
      = (False, (books [])\<lparr>ls_error := ''no such row''\<rparr>)"
    by (simp add: books_eval ls_insertRecord_def)
  note t = insert_failure_appends [OF rej]
  have p: "prefix ''Insert record failedno such row:memory:books''
      (errorString listStore (snd (insert_row listStore 1 ?m 5)))"
    using t [THEN conjunct1] by (simp add: books_eval)
  have e: "errorString listStore (snd (insert_row listStore 1 ?m 5))
     = ''Insert record failedno such row:memory:booksInsert record failedno such row:memory:books''"
    using t [THEN conjunct2, THEN conjunct1] by (simp add: books_eval)
  from rej p e show ?thesis by simp
qed

subsection \<open>The checked role\<close>

text \<open>
  With a selection model attached, setting the checked role of a valid index always returns
  true, \<^verbatim>\<open>data\<close> then returns what was set, and \<^verbatim>\<open>selectedRows()\<close> is the size of the
  selection.
\<close>

lemma checked_round_trip:
  assumes "d_selectionModel m = Some sel" and "isValid i"
  shows "\<exists>m' sel'. setData S m i v CheckStateRole = Inr (True, m') \<and>
           d_selectionModel m' = Some sel' \<and>
           set sel' = (if toBool v then insert i (set sel) else set sel - {i}) \<and>
           data S m' i CheckStateRole = Inr (QBool (toBool v)) \<and>
           selectedRows m' = int (card (set sel'))"
  using assms
  by (auto simp: setData_def data_def emit_def Let_def isSelected_def selectedRows_def
      selectedIndexes_def length_remdups_card_conv CheckStateRole_def UserRole_def)

text \<open>
  C3 fails on a model as the constructor leaves it, where \<^verbatim>\<open>d->selectionModel\<close> is null
  (no line of the source assigns it): \<^verbatim>\<open>setData\<close> and \<^verbatim>\<open>data\<close> at the checked role of the
  valid index of row 0 dereference the null pointer, where \<^verbatim>\<open>selectedRows()\<close> tests it
  and returns 0.
\<close>

theorem checked_role_null_selection:
  "isValid (index listStore (TableModel_books [book 1] None) 0 0) \<and>
   setData listStore (TableModel_books [book 1] None)
     (index listStore (TableModel_books [book 1] None) 0 0) (QBool True) CheckStateRole
     = Inl NullDereference \<and>
   data listStore (TableModel_books [book 1] None)
     (index listStore (TableModel_books [book 1] None) 0 0) CheckStateRole
     = Inl NullDereference \<and>
   selectedRows (TableModel_books [book 1] None) = 0"
  by (simp add: setData_def data_def selectedRows_def index_def isValid_def createIndex_def
      CheckStateRole_def UserRole_def books_eval)

subsection \<open>Recovering a row\<close>







text \<open>
  The model of that example is what \<^verbatim>\<open>setTable\<close> gives after \<^verbatim>\<open>roleNames()\<close>, for a base
  class that then holds the table \<^verbatim>\<open>archive\<close> with its row.
\<close>

lemma stale_roles_after_setTable:
  "setTable (\<lambda>s name. archive [[QInt 1, QInt 0, QString ''Emma'', QString ''2019-11-28'']])
     listStore (snd (roleNames listStore (TableModel_books [book 1] None))) ''archive''
     = (snd (roleNames listStore (TableModel_books [book 1] None)))
         \<lparr>d_tableName := ''archive'',
          base := archive [[QInt 1, QInt 0, QString ''Emma'', QString ''2019-11-28'']],
          emitted := [TableChanged]\<rparr>"
  by (simp add: setTable_def trimmed_def isSpace_def toLower_def toLower_char_def tableName_def
      roleNames_def emit_def Let_def books_eval)

subsection \<open>The selection model is never attached\<close>

text \<open>
  No operation assigns \<^verbatim>\<open>d->selectionModel\<close>: where it is null before, it is null after,
  and the role names cached in \<^verbatim>\<open>d->roles\<close> change in \<^verbatim>\<open>roleNames()\<close> only.
\<close>

lemma selectionModel_stays_null:
  assumes "d_selectionModel m = None"
  shows "d_selectionModel (snd (roleNames S m)) = None"
    and "d_selectionModel (snd (refresh S m)) = None"
    and "d_selectionModel (snd (insert_row S pending m r)) = None"
    and "d_selectionModel (snd (remove_row S m r)) = None"
    and "d_selectionModel (setTable base_setTable S m name) = None"
    and "d_selectionModel (setDatabaseName m name) = None"
    and "setData S m i v role = Inr (ok, m') \<Longrightarrow> d_selectionModel m' = None"
    and "recoverRow S m r = Inr (ok, m') \<Longrightarrow> d_selectionModel m' = None"
  using assms
  by (auto simp: roleNames_def refresh_def insert_row_def remove_row_def setTable_def
      setDatabaseName_def setData_def recoverRow_def emit_def Let_def
      split: prod.splits if_splits)

lemma setTable_keeps_roles: "d_roles (setTable base_setTable S m name) = d_roles m"
  by (simp add: setTable_def emit_def Let_def)

lemma removeSelected_without_selectionModel:
  "d_selectionModel m = None \<Longrightarrow> removeSelected S m = Inl NullDereference"
  by (simp add: removeSelected_def)

text \<open>
  C1 fails on a model as the constructor leaves it, where \<^verbatim>\<open>d->selectionModel\<close> is null:
  on a table of ten rows \<^verbatim>\<open>removeSelected()\<close> reads the selected indexes through the null
  pointer before it removes a row or returns a count, where \<^verbatim>\<open>selectedRows()\<close> tests the
  pointer and returns 0.
\<close>

theorem removeSelected_null_selection:
  "removeSelected listStore
     (TableModel_books
        [book 0, book 1, book 2, book 3, book 4, book 5, book 6, book 7, book 8, book 9] None)
     = Inl NullDereference \<and>
   d_selectionModel (TableModel_new (books
        [book 0, book 1, book 2, book 3, book 4, book 5, book 6, book 7, book 8, book 9])) = None \<and>
   selectedRows
     (TableModel_books
        [book 0, book 1, book 2, book 3, book 4, book 5, book 6, book 7, book 8, book 9] None)
     = 0"
  by (simp add: removeSelected_def selectedRows_def books_eval)

subsection \<open>Removing the selected rows\<close>

lemma removed_indexes_Cons:
  "removed_indexes (i # idxs) (ok # oks) =
     (if ok then i # removed_indexes idxs oks else removed_indexes idxs oks)"
  by (simp add: removed_indexes_def)

lemma removeSelected_loop_attempts:
  "removeSelected_loop S list tot s sel =
     (tot + int (length (filter (\<lambda>ok. ok) (fst (attempts S s (map row (rev list)))))),
      snd (attempts S s (map row (rev list))),
      filter (\<lambda>i. i \<notin> set (removed_indexes (rev list) (fst (attempts S s (map row (rev list))))))
        sel)"
proof (induction list arbitrary: tot s sel rule: rev_induct)
  case Nil
  show ?case
    by (subst removeSelected_loop.simps) (simp add: removed_indexes_def)
next
  case (snoc x xs)
  obtain ok s' where step: "base_removeRow S s (row x) = (ok, s')"
    by (cases "base_removeRow S s (row x)")
  obtain oks s'' where rest: "attempts S s' (map row (rev xs)) = (oks, s'')"
    by (cases "attempts S s' (map row (rev xs))")
  have all: "attempts S s (row x # map row (rev xs)) = (ok # oks, s'')"
    by (simp add: step rest)
  show ?case
  proof (cases ok)
    case True
    have "removeSelected_loop S (xs @ [x]) tot s sel =
        removeSelected_loop S xs (tot + 1) s' (select_index sel x Deselect)"
      by (subst removeSelected_loop.simps) (simp add: step True)
    also have "\<dots> =
        (tot + 1 + int (length (filter (\<lambda>ok. ok) oks)), s'',
         filter (\<lambda>i. i \<notin> set (removed_indexes (rev xs) oks)) (removeAll x sel))"
      by (simp add: snoc.IH rest)
    also have "filter (\<lambda>i. i \<notin> set (removed_indexes (rev xs) oks)) (removeAll x sel) =
        filter (\<lambda>i. i \<notin> set (removed_indexes (x # rev xs) (ok # oks))) sel"
      by (induction sel) (auto simp: removed_indexes_Cons True)
    finally show ?thesis
      by (simp add: all True del: attempts.simps)
  next
    case False
    have "removeSelected_loop S (xs @ [x]) tot s sel = removeSelected_loop S xs tot s' sel"
      by (subst removeSelected_loop.simps) (simp add: step False)
    also have "\<dots> =
        (tot + int (length (filter (\<lambda>ok. ok) oks)), s'',
         filter (\<lambda>i. i \<notin> set (removed_indexes (rev xs) oks)) sel)"
      by (simp add: snoc.IH rest)
    finally show ?thesis
      by (simp add: all False removed_indexes_Cons del: attempts.simps)
  qed
qed

lemma length_attempts: "length (fst (attempts S s rs)) = length rs"
  by (induction rs arbitrary: s) (simp_all add: Let_def case_prod_beta)

lemma sorted_rows:
  "sorted (map index_key xs) \<Longrightarrow> sorted (map row xs)"
  by (induction xs) (auto simp: index_key_def less_eq_prod_def)

lemma sorted_rows_sort: "sorted (map row (sort_key index_key xs))"
  by (rule sorted_rows) (rule sorted_sort_key)

lemma removal_order_descending:
  "sorted_wrt (\<lambda>a b. row b \<le> row a) (removal_order sel)"
  using sorted_rows_sort [of "selectedIndexes sel"]
  by (simp add: removal_order_def sorted_wrt_rev sorted_map)

lemma removal_order_strict:
  assumes "distinct (map row (selectedIndexes sel))"
  shows "sorted_wrt (\<lambda>a b. row b < row a) (removal_order sel)"
proof -
  let ?xs = "sort_key index_key (selectedIndexes sel)"
  have "distinct (map row ?xs)"
    using assms by (simp add: distinct_map)
  with sorted_rows_sort [of "selectedIndexes sel"] have "sorted_wrt (<) (map row ?xs)"
    by (simp add: strict_sorted_iff)
  then show ?thesis
    by (simp add: removal_order_def sorted_wrt_rev sorted_wrt_map)
qed

text \<open>
  With a selection model attached, which the source never does, \<^verbatim>\<open>removeSelected()\<close> tries
  the selected indexes in descending order of the row (the sorted list, from its tail), each
  once; it deselects the indexes whose removal succeeded and leaves the others selected, and
  returns the number of removals that succeeded. Each removal is tried at a row that is not
  below any row still to be tried; when the selection holds one index for a row at most, it
  is above all of them.
\<close>

lemma removeSelected_descending:
  assumes "d_selectionModel m = Some sel"
  shows
  "removeSelected S m =
     Inr (int (length (filter (\<lambda>ok. ok)
                 (fst (attempts S (base m) (map row (removal_order sel)))))),
          m\<lparr>base := snd (attempts S (base m) (map row (removal_order sel))),
            d_selectionModel := Some (filter
              (\<lambda>i. i \<notin> set (removed_indexes (removal_order sel)
                               (fst (attempts S (base m) (map row (removal_order sel))))))
              sel)\<rparr>) \<and>
   set (removal_order sel) = set sel \<and>
   distinct (removal_order sel) \<and>
   length (fst (attempts S (base m) (map row (removal_order sel)))) = length (removal_order sel) \<and>
   sorted_wrt (\<lambda>a b. row b \<le> row a) (removal_order sel) \<and>
   (distinct (map row (selectedIndexes sel)) \<longrightarrow>
      sorted_wrt (\<lambda>a b. row b < row a) (removal_order sel))"
proof -
  have run: "removeSelected S m =
     Inr (int (length (filter (\<lambda>ok. ok)
                 (fst (attempts S (base m) (map row (removal_order sel)))))),
          m\<lparr>base := snd (attempts S (base m) (map row (removal_order sel))),
            d_selectionModel := Some (filter
              (\<lambda>i. i \<notin> set (removed_indexes (removal_order sel)
                               (fst (attempts S (base m) (map row (removal_order sel))))))
              sel)\<rparr>)"
    using assms
    by (simp add: removeSelected_def Let_def removeSelected_loop_attempts removal_order_def)
  have elems: "set (removal_order sel) = set sel" "distinct (removal_order sel)"
    by (simp_all add: removal_order_def selectedIndexes_def)
  from run elems length_attempts [of S "base m" "map row (removal_order sel)"]
    removal_order_descending [of sel] removal_order_strict [of sel]
  show ?thesis by simp
qed

text \<open>
  The example of the spec, with a selection model attached: of the ten rows of a table the rows 2, 5 and 7 are
  selected; they are tried at 7, 5 and 2, the three are removed, seven rows stay and nothing
  stays selected. With the index of a row 12 selected as well, which the table does not
  have, that removal fails, the index stays selected and the result is 3 again.
\<close>

lemma removeSelected_descending_example:
  "removeSelected listStore
     (TableModel_books
        [book 0, book 1, book 2, book 3, book 4, book 5, book 6, book 7, book 8, book 9]
        (Some [createIndex 5 0, createIndex 2 0, createIndex 7 0]))
     = Inr (3, TableModel_books
                 [book 0, book 1, book 3, book 4, book 6, book 8, book 9] (Some [])) \<and>
   removal_order [createIndex 5 0, createIndex 2 0, createIndex 7 0]
     = [createIndex 7 0, createIndex 5 0, createIndex 2 0] \<and>
   sorted_wrt (\<lambda>a b. row b < row a)
     (removal_order [createIndex 5 0, createIndex 2 0, createIndex 7 0]) \<and>
   removeSelected listStore
     (TableModel_books
        [book 0, book 1, book 2, book 3, book 4, book 5, book 6, book 7, book 8, book 9]
        (Some [createIndex 5 0, createIndex 12 0, createIndex 2 0, createIndex 7 0]))
     = Inr (3, TableModel_books
                 [book 0, book 1, book 3, book 4, book 6, book 8, book 9]
                 (Some [createIndex 12 0]))"
proof -
  let ?sel = "[createIndex 5 0, createIndex 2 0, createIndex 7 0]"
  let ?wide = "[createIndex 5 0, createIndex 12 0, createIndex 2 0, createIndex 7 0]"
  let ?rows = "[book 0, book 1, book 2, book 3, book 4, book 5, book 6, book 7, book 8, book 9]"
  let ?left = "[book 0, book 1, book 3, book 4, book 6, book 8, book 9]"
  have h: "d_selectionModel (TableModel_books ?rows (Some ?sel)) = Some ?sel"
    by (simp add: books_eval)
  have hw: "d_selectionModel (TableModel_books ?rows (Some ?wide)) = Some ?wide"
    by (simp add: books_eval)
  have order: "removal_order ?sel = [createIndex 7 0, createIndex 5 0, createIndex 2 0]"
    by (simp add: removal_order_def selectedIndexes_def index_key_def createIndex_def)
  have orderw: "removal_order ?wide
      = [createIndex 12 0, createIndex 7 0, createIndex 5 0, createIndex 2 0]"
    by (simp add: removal_order_def selectedIndexes_def index_key_def createIndex_def)
  have rows: "map row [createIndex 7 0, createIndex 5 0, createIndex 2 0] = [7, 5, 2]"
    "map row [createIndex 12 0, createIndex 7 0, createIndex 5 0, createIndex 2 0] = [12, 7, 5, 2]"
    by (simp_all add: createIndex_def)
  have tries: "attempts listStore (base (TableModel_books ?rows (Some ?sel))) [7, 5, 2]
      = ([True, True, True], books ?left)"
    by (simp add: books_eval ls_removeRow_def)
  have triesw: "attempts listStore (base (TableModel_books ?rows (Some ?wide))) [12, 7, 5, 2]
      = ([False, True, True, True], books ?left)"
    by (simp add: books_eval ls_removeRow_def)
  have removed:
    "removed_indexes [createIndex 7 0, createIndex 5 0, createIndex 2 0] [True, True, True]
       = [createIndex 7 0, createIndex 5 0, createIndex 2 0]"
    "removed_indexes [createIndex 12 0, createIndex 7 0, createIndex 5 0, createIndex 2 0]
         [False, True, True, True]
       = [createIndex 7 0, createIndex 5 0, createIndex 2 0]"
    by (simp_all add: removed_indexes_def)
  have "removeSelected listStore (TableModel_books ?rows (Some ?sel))
     = Inr (int (length (filter (\<lambda>ok. ok) [True, True, True])),
            (TableModel_books ?rows (Some ?sel))\<lparr>base := books ?left,
              d_selectionModel := Some (filter
                (\<lambda>i. i \<notin> set [createIndex 7 0, createIndex 5 0, createIndex 2 0]) ?sel)\<rparr>)"
    using removeSelected_descending [OF h, of listStore, THEN conjunct1]
    unfolding order rows tries fst_conv snd_conv removed .
  then have a: "removeSelected listStore (TableModel_books ?rows (Some ?sel))
     = Inr (3, TableModel_books ?left (Some []))"
    by (simp add: TableModel_books_def TableModel_new_def)
  have "distinct (map row (selectedIndexes ?sel))"
    by (simp add: selectedIndexes_def createIndex_def)
  then have b: "sorted_wrt (\<lambda>a b. row b < row a) (removal_order ?sel)"
    using removeSelected_descending [OF h, of listStore] by blast
  have "removeSelected listStore (TableModel_books ?rows (Some ?wide))
     = Inr (int (length (filter (\<lambda>ok. ok) [False, True, True, True])),
            (TableModel_books ?rows (Some ?wide))\<lparr>base := books ?left,
              d_selectionModel := Some (filter
                (\<lambda>i. i \<notin> set [createIndex 7 0, createIndex 5 0, createIndex 2 0]) ?wide)\<rparr>)"
    using removeSelected_descending [OF hw, of listStore, THEN conjunct1]
    unfolding orderw rows triesw fst_conv snd_conv removed .
  then have c: "removeSelected listStore (TableModel_books ?rows (Some ?wide))
     = Inr (3, TableModel_books ?left (Some [createIndex 12 0]))"
    by (simp add: TableModel_books_def TableModel_new_def createIndex_def)
  from a order b c show ?thesis by blast
qed

subsection \<open>Descending removals on the store held in memory\<close>

lemma nths_cong_below:
  "(\<And>i. i < length xs \<Longrightarrow> i \<in> A \<longleftrightarrow> i \<in> B) \<Longrightarrow> nths xs A = nths xs B"
proof -
  assume same: "\<And>i. i < length xs \<Longrightarrow> i \<in> A \<longleftrightarrow> i \<in> B"
  have "filter (\<lambda>p. snd p \<in> A) (zip xs [0 ..< length xs])
      = filter (\<lambda>p. snd p \<in> B) (zip xs [0 ..< length xs])"
  proof (rule filter_cong [OF refl])
    fix p
    assume "p \<in> set (zip xs [0 ..< length xs])"
    then have "snd p \<in> set [0 ..< length xs]"
      by (metis prod.collapse set_zip_rightD)
    then show "(snd p \<in> A) = (snd p \<in> B)"
      using same by simp
  qed
  then show ?thesis by (simp add: nths_def)
qed

lemma nths_remove_position:
  assumes k: "k < length t" and above: "\<And>i. k \<le> i \<Longrightarrow> i \<in> A"
  shows "nths (take k t @ drop (Suc k) t) A = nths t (A - {k})"
proof -
  have t: "t = take k t @ t ! k # drop (Suc k) t"
    using k by (rule id_take_nth_drop)
  have len: "length (take k t) = k"
    using k by simp
  have front: "nths (take k t) A = nths (take k t) (A - {k})"
    by (rule nths_cong_below) (simp add: len)
  have back1: "nths (drop (Suc k) t) {j. j + k \<in> A} = drop (Suc k) t"
    by (rule nths_all) (simp add: above)
  have back2: "nths (drop (Suc k) t) {j. Suc (j + k) \<in> A} = drop (Suc k) t"
    by (rule nths_all) (simp add: above)
  have "nths t (A - {k}) = nths (take k t @ t ! k # drop (Suc k) t) (A - {k})"
    using t by simp
  also have "\<dots> = nths (take k t) (A - {k}) @
      nths (t ! k # drop (Suc k) t) {j. j + k \<in> A - {k}}"
    by (simp only: nths_append len)
  also have "nths (t ! k # drop (Suc k) t) {j. j + k \<in> A - {k}} = drop (Suc k) t"
    by (simp add: nths_Cons back2)
  finally have "nths t (A - {k}) = nths (take k t) A @ drop (Suc k) t"
    by (simp add: front)
  moreover have "nths (take k t @ drop (Suc k) t) A = nths (take k t) A @ drop (Suc k) t"
    by (simp only: nths_append len back1)
  ultimately show ?thesis by simp
qed

text \<open>
  On the store held in memory, removals at strictly descending rows leave the rows at the
  positions that were not tried, in their order: no removal moves a row that is still to be
  tried, none is skipped and none is removed in place of another.
\<close>

lemma listStore_attempts_rows:
  "sorted_wrt (\<lambda>a b. b < a) rs \<Longrightarrow>
     ls_rows (snd (attempts listStore s rs)) = nths (ls_rows s) {i. int i \<notin> set rs}"
proof (induction rs arbitrary: s)
  case Nil
  show ?case by (simp add: nths_all)
next
  case (Cons r rs)
  then have below: "\<forall>x \<in> set rs. x < r" and desc: "sorted_wrt (\<lambda>a b. b < a) rs"
    by simp_all
  let ?t = "ls_rows s"
  let ?A = "{i. int i \<notin> set rs}"
  have step: "snd (attempts listStore s (r # rs)) = snd (attempts listStore (snd (ls_removeRow s r)) rs)"
    by (simp add: Let_def case_prod_beta listStore_def)
  show ?case
  proof (cases "0 \<le> r \<and> r < int (length ?t)")
    case True
    then have k: "nat r < length ?t" by (simp add: nat_less_iff)
    have above: "\<And>i. nat r \<le> i \<Longrightarrow> i \<in> ?A"
      using below True by auto
    have "ls_rows (snd (attempts listStore s (r # rs)))
        = nths (take (nat r) ?t @ drop (Suc (nat r)) ?t) ?A"
      using True by (simp add: step Cons.IH [OF desc] ls_removeRow_def del: attempts.simps)
    also have "\<dots> = nths ?t (?A - {nat r})"
      using k above by (rule nths_remove_position)
    also have "?A - {nat r} = {i. int i \<notin> set (r # rs)}"
      using True by auto
    finally show ?thesis .
  next
    case False
    then have "ls_removeRow s r = (False, s)"
      by (auto simp: ls_removeRow_def)
    then have "ls_rows (snd (attempts listStore s (r # rs))) = nths ?t ?A"
      by (simp add: step Cons.IH [OF desc] del: attempts.simps)
    also have "\<dots> = nths ?t {i. int i \<notin> set (r # rs)}"
      by (rule nths_cong_below) (use False in auto)
    finally show ?thesis .
  qed
qed

lemma removeSelected_listStore_rows:
  assumes "d_selectionModel m = Some sel" and "distinct (map row (selectedIndexes sel))"
  shows "\<exists>n m'. removeSelected listStore m = Inr (n, m') \<and>
           ls_rows (base m') = nths (ls_rows (base m)) {i. int i \<notin> row ` set sel}"
proof -
  have "sorted_wrt (\<lambda>a b. b < a) (map row (removal_order sel))"
    using removal_order_strict [OF assms(2)] by (simp add: sorted_wrt_map)
  then have "ls_rows (snd (attempts listStore (base m) (map row (removal_order sel))))
      = nths (ls_rows (base m)) {i. int i \<notin> set (map row (removal_order sel))}"
    by (rule listStore_attempts_rows)
  moreover have "set (map row (removal_order sel)) = row ` set sel"
    by (simp add: removal_order_def selectedIndexes_def)
  ultimately show ?thesis
    using assms(1)
    by (simp add: removeSelected_def Let_def removeSelected_loop_attempts removal_order_def)
qed

end
